theory Spec2Isabelle
  imports Main
begin

section \<open>The editor component: validation gate and diagram value\<close>

subsection \<open>JavaScript values of the value expression\<close>

text \<open>
  The expression handed to the diagram, \<^verbatim>\<open>(isValidConfig && currentConfig) || "{}"\<close>,
  mixes a boolean and strings, so its operands are modelled as a small union of the two
  JavaScript types that occur in it. \<open>&&\<close> and \<open>||\<close> return one of their operands,
  chosen by the truthiness of the left one; the empty string and \<open>false\<close> are falsy.
\<close>

datatype jsval = JBool bool | JStr string

fun truthy :: "jsval \<Rightarrow> bool" where
  "truthy (JBool b) = b"
| "truthy (JStr s) = (s \<noteq> [])"

definition jsAnd :: "jsval \<Rightarrow> jsval \<Rightarrow> jsval" where
  "jsAnd a b = (if truthy a then b else a)"

definition jsOr :: "jsval \<Rightarrow> jsval \<Rightarrow> jsval" where
  "jsOr a b = (if truthy a then a else b)"

subsection \<open>The validation error report\<close>

text \<open>
  Modelled from the spec: the declaration of \<open>IError\<close> lives in
  \<^verbatim>\<open>./ValidationErrorConsole\<close>, which is not among the sources. The component reads
  two optional fields of it, \<open>yamlError\<close> and \<open>ajvErrors\<close>; the spec describes the
  report as having "at most two fields", a single top-level error and a list of
  field-level errors. An absent field (\<open>undefined\<close>) and \<open>null\<close> are both \<open>None\<close>;
  the shapes of the two kinds of error are left as type parameters.
\<close>

record ('y, 'a) IError =
  yamlError :: "'y option"
  ajvErrors :: "'a list option"

text \<open>The object literal \<^verbatim>\<open>{}\<close> returned while the handles are not ready.\<close>

definition emptyReport :: "('y, 'a) IError" where
  "emptyReport = \<lparr>yamlError = None, ajvErrors = None\<rparr>"


text \<open>
  \<^verbatim>\<open>errors.ajvErrors?.length ?? 0\<close>: the length of the list, and \<open>0\<close> when the list
  is absent.
\<close>

definition ajvErrorCount :: "('y, 'a) IError \<Rightarrow> nat" where
  "ajvErrorCount errors = (case ajvErrors errors of None \<Rightarrow> 0 | Some es \<Rightarrow> length es)"

text \<open>
  \<^verbatim>\<open>totalValidationErrors.yamlError == null && (...ajvErrors?.length ?? 0) === 0\<close>.
  The loose comparison \<open>== null\<close> holds for \<open>null\<close> and for \<open>undefined\<close>.
\<close>

definition isValidConfig :: "('y, 'a) IError \<Rightarrow> bool" where
  "isValidConfig errors = (yamlError errors = None \<and> ajvErrorCount errors = 0)"

subsection \<open>The value handed to the diagram\<close>

text \<open>The \<open>value\<close> prop of \<open>Flow\<close>: \<^verbatim>\<open>(isValidConfig && currentConfig) || "{}"\<close>.\<close>

definition flowValue :: "('y, 'a) IError \<Rightarrow> string \<Rightarrow> jsval" where
  "flowValue errors currentConfig =
     jsOr (jsAnd (JBool (isValidConfig errors)) (JStr currentConfig)) (JStr ''{}'')"

subsection \<open>The editor's change handler\<close>

text \<open>
  \<open>handleEditorChange\<close> receives the editor text or \<open>undefined\<close>, passes
  \<^verbatim>\<open>value ?? ""\<close> to \<open>selectConfigType\<close> and stores
  \<^verbatim>\<open>(configType as string) ?? ""\<close> as the current configuration. The function
  \<open>selectConfigType\<close> comes from \<^verbatim>\<open>./parseYaml\<close>, outside the sources, and is a
  parameter; a result of \<open>null\<close> or \<open>undefined\<close> is \<open>None\<close>. The result is the
  argument of \<open>setCurrentConfig\<close>, the next value of the \<open>currentConfig\<close> state.
\<close>

definition nullish :: "'a option \<Rightarrow> 'a \<Rightarrow> 'a" where
  "nullish v d = (case v of None \<Rightarrow> d | Some x \<Rightarrow> x)"

definition handleEditorChange :: "(string \<Rightarrow> string option) \<Rightarrow> string option \<Rightarrow> string" where
  "handleEditorChange selectConfigType v = nullish (selectConfigType (nullish v [])) []"

section \<open>Numbers and their decimal text\<close>

text \<open>
  The panel width is a JavaScript number. The spec's data model makes it "an integer
  pixel width", and it is modelled as an \<open>int\<close>. The model agrees with JavaScript on
  the safe integers (magnitude at most \<open>2^53 - 1\<close>), where every integer is a number
  of its own and \<open>String\<close> writes plain decimal digits. Fractions, infinities, \<open>NaN\<close>
  and the sign of zero are outside it, and so are the larger integers, which \<open>String\<close>
  writes with an exponent from \<open>10^21\<close> on. What is proved of the text of a width is
  proved of safe integers.
\<close>

definition isSafeInteger :: "int \<Rightarrow> bool" where
  "isSafeInteger n = (\<bar>n\<bar> \<le> 9007199254740991)"

definition digitChar :: "nat \<Rightarrow> char" where
  "digitChar d = ''0123456789'' ! d"

definition digitValue :: "char \<Rightarrow> nat option" where
  "digitValue c =
     map_of [(CHR ''0'', 0), (CHR ''1'', 1), (CHR ''2'', 2), (CHR ''3'', 3), (CHR ''4'', 4),
             (CHR ''5'', 5), (CHR ''6'', 6), (CHR ''7'', 7), (CHR ''8'', 8), (CHR ''9'', 9)] c"

fun natToString :: "nat \<Rightarrow> string" where
  "natToString n =
     (if n < 10 then [digitChar n] else natToString (n div 10) @ [digitChar (n mod 10)])"

declare natToString.simps [simp del]

text \<open>\<open>String(n)\<close> and the template \<^verbatim>\<open>${n}\<close> for an integer \<open>n\<close>.\<close>

definition jsString :: "int \<Rightarrow> string" where
  "jsString n = (if n < 0 then CHR ''-'' # natToString (nat (- n)) else natToString (nat n))"

fun parseDigits :: "nat \<Rightarrow> string \<Rightarrow> nat option" where
  "parseDigits acc [] = Some acc"
| "parseDigits acc (c # cs) =
     (case digitValue c of None \<Rightarrow> None | Some d \<Rightarrow> parseDigits (10 * acc + d) cs)"

definition parseUnsigned :: "string \<Rightarrow> nat option" where
  "parseUnsigned s = (if s = [] then None else parseDigits 0 s)"

definition parseSigned :: "string \<Rightarrow> int option" where
  "parseSigned s =
     (case s of
        [] \<Rightarrow> Some 0
      | c # cs \<Rightarrow>
          if c = CHR ''-'' then map_option (\<lambda>n. - int n) (parseUnsigned cs)
          else if c = CHR ''+'' then map_option int (parseUnsigned cs)
          else map_option int (parseUnsigned s))"

text \<open>
  \<open>Number(s)\<close> on the part of its grammar the integer model covers: the empty string
  is \<open>0\<close>, and an optional sign followed by decimal digits is that integer when it is
  safe (a longer digit string is rounded by JavaScript). \<open>None\<close> stands for every other
  outcome of \<open>Number\<close>: \<open>NaN\<close>, a fraction, an infinity, a rounded value, and the
  literals written with white space, a point, an exponent or a radix prefix.
\<close>

definition jsNumber :: "string \<Rightarrow> int option" where
  "jsNumber s =
     (case parseSigned s of
        None \<Rightarrow> None
      | Some n \<Rightarrow> if isSafeInteger n then Some n else None)"

section \<open>The view mode controller\<close>

text \<open>
  \<open>calculateViewWidth\<close>: a \<open>switch\<close> over the view mode string. The modes the
  component compares against are \<open>"code"\<close>, \<open>"pipeline"\<close> (diagram only) and
  \<open>"both"\<close> (split); every mode other than the first two takes the default branch.
\<close>

definition calculateViewWidth :: "string \<Rightarrow> int \<Rightarrow> string" where
  "calculateViewWidth viewMode width =
     (if viewMode = ''code'' then ''100%''
      else if viewMode = ''pipeline'' then ''0px''
      else jsString width @ ''px'')"

section \<open>The browser: storage, history and analytics\<close>

text \<open>
  The component acts on the browser through three interfaces: \<open>localStorage.setItem\<close>,
  \<open>window.history\<close> and the analytics call \<open>track\<close>. Each call is an effect; a
  handler or a React effect returns the list of calls it makes, in order.
  \<open>HistoryReplaceState\<close> is the History interface's second way of changing the URL;
  no function of the component issues it.
\<close>

datatype effect =
    StorageSetItem string string
  | HistoryPushState string
  | HistoryReplaceState string
  | Track string

text \<open>
  The browser state the effects act on. The session history is a list of URLs with the
  index of the current entry: \<open>pushState\<close> drops the entries after the current one,
  appends a new entry and makes it current, \<open>replaceState\<close> overwrites the current
  entry. Storage is taken to have room for every item.
\<close>

record browser =
  localStorage :: "string \<rightharpoonup> string"
  historyEntries :: "string list"
  historyIndex :: nat
  tracked :: "string list"

fun perform :: "effect \<Rightarrow> browser \<Rightarrow> browser" where
  "perform (StorageSetItem k v) b = b\<lparr>localStorage := (localStorage b)(k \<mapsto> v)\<rparr>"
| "perform (HistoryPushState u) b =
     b\<lparr>historyEntries := take (Suc (historyIndex b)) (historyEntries b) @ [u],
       historyIndex := Suc (historyIndex b)\<rparr>"
| "perform (HistoryReplaceState u) b =
     b\<lparr>historyEntries := (historyEntries b)[historyIndex b := u]\<rparr>"
| "perform (Track name) b = b\<lparr>tracked := tracked b @ [name]\<rparr>"

fun performAll :: "effect list \<Rightarrow> browser \<Rightarrow> browser" where
  "performAll [] b = b"
| "performAll (e # es) b = performAll es (perform e b)"

fun isHistoryUpdate :: "effect \<Rightarrow> bool" where
  "isHistoryUpdate (HistoryPushState u) = True"
| "isHistoryUpdate (HistoryReplaceState u) = True"
| "isHistoryUpdate e = False"

section \<open>The editor component: state, handlers and effects\<close>

text \<open>
  What one render of \<open>Editor\<close> holds: the configuration decoded from the URL and the
  link builder, both returned by \<open>useUrlState\<close>; the two pieces of local state
  \<open>currentConfig\<close> and \<open>width\<close>. \<open>linkVersion\<close> stands for the identity of the
  \<open>getLink\<close> function object, which React compares in dependency lists.
\<close>

record editor =
  config :: string
  getLink :: "string \<Rightarrow> string"
  linkVersion :: nat
  currentConfig :: string
  width :: int

text \<open>
  The surroundings that do not change between renders: whether \<open>window\<close> is defined
  (\<^verbatim>\<open>typeof window !== "undefined"\<close>), and \<open>editorBinding.fallback\<close>, the default
  configuration, whose module is outside the sources.
\<close>

record env =
  hasWindow :: bool
  fallback :: string

text \<open>
  The initial state. \<^verbatim>\<open>useState(Number(localStorage.getItem("width") ?? 440))\<close>:
  \<open>getItem\<close> gives \<open>null\<close> for a missing key. \<^verbatim>\<open>useState<string>(config)\<close>: the
  current configuration starts as the URL's. \<open>None\<close> is a stored text that \<open>jsNumber\<close>
  does not cover: the code mounts there as well, with whatever number \<open>Number\<close> gives,
  and the model says nothing about that state.
\<close>

definition initialWidth :: "browser \<Rightarrow> int option" where
  "initialWidth b =
     (case localStorage b ''width'' of None \<Rightarrow> Some 440 | Some s \<Rightarrow> jsNumber s)"

definition initialEditor :: "browser \<Rightarrow> string \<Rightarrow> (string \<Rightarrow> string) \<Rightarrow> editor option" where
  "initialEditor b cfg link =
     map_option
       (\<lambda>w. \<lparr>config = cfg, getLink = link, linkVersion = 0, currentConfig = cfg, width = w\<rparr>)
       (initialWidth b)"

text \<open>
  \<open>onWidthChange\<close>: \<^verbatim>\<open>localStorage.setItem("width", String(newWidth))\<close>, then
  \<open>setWidth(newWidth)\<close>. The result is the calls made and the next state.
\<close>

definition onWidthChange :: "int \<Rightarrow> editor \<Rightarrow> effect list \<times> editor" where
  "onWidthChange newWidth s =
     ([StorageSetItem ''width'' (jsString newWidth)], s\<lparr>width := newWidth\<rparr>)"

text \<open>\<open>onChangeConfig\<close>: one \<open>window.history.pushState\<close> when \<open>window\<close> exists.\<close>

definition onChangeConfig :: "env \<Rightarrow> editor \<Rightarrow> string \<Rightarrow> effect list" where
  "onChangeConfig e s newConfig =
     (if hasWindow e then [HistoryPushState (getLink s newConfig)] else [])"

text \<open>The three \<open>useEffect\<close> bodies, in the order of the source.\<close>

definition trackEffect :: "env \<Rightarrow> editor \<Rightarrow> effect list" where
  "trackEffect e s =
     (if config s \<noteq> fallback e then [Track ''Opened with non-default config''] else [])"

definition restoreEffect :: "editor \<Rightarrow> effect list" where
  "restoreEffect s = [StorageSetItem ''config-restore'' (config s)]"

definition changeEffect :: "env \<Rightarrow> editor \<Rightarrow> effect list" where
  "changeEffect e s =
     (if currentConfig s \<noteq> config s then onChangeConfig e s (currentConfig s) else [])"

text \<open>
  React runs every effect after the first render, and after a later render those whose
  dependency list changed: \<open>[]\<close> never, \<open>[config]\<close>, and
  \<open>[onChangeConfig, currentConfig, config]\<close>, where \<open>onChangeConfig\<close> is memoised on
  \<open>[getLink]\<close>.
\<close>

definition mountEffects :: "env \<Rightarrow> editor \<Rightarrow> effect list" where
  "mountEffects e s = trackEffect e s @ restoreEffect s @ changeEffect e s"

definition updateEffects :: "env \<Rightarrow> editor \<Rightarrow> editor \<Rightarrow> effect list" where
  "updateEffects e prev cur =
     (if config cur \<noteq> config prev then restoreEffect cur else []) @
     (if linkVersion cur \<noteq> linkVersion prev \<or> currentConfig cur \<noteq> currentConfig prev
         \<or> config cur \<noteq> config prev
      then changeEffect e cur else [])"

fun rerenderEffects :: "env \<Rightarrow> editor \<Rightarrow> editor list \<Rightarrow> effect list" where
  "rerenderEffects e prev [] = []"
| "rerenderEffects e prev (cur # rest) = updateEffects e prev cur @ rerenderEffects e cur rest"

definition lifecycleEffects :: "env \<Rightarrow> editor \<Rightarrow> editor list \<Rightarrow> effect list" where
  "lifecycleEffects e first rest = mountEffects e first @ rerenderEffects e first rest"

section \<open>The short-link middleware\<close>

text \<open>
  \<open>handleShortLinkRequest\<close> matches the request's path against
  \<^verbatim>\<open>/\/s\/([^/]+)$/\<close>. The expression has no \<open>^\<close>: \<open>match\<close> tries every start
  position from the left and returns the first match. At one position the expression
  needs the text \<open>/s/\<close>, then one or more characters other than \<open>/\<close>, then the end
  of the path; the group is those characters.
\<close>

fun stripPrefix :: "string \<Rightarrow> string \<Rightarrow> string option" where
  "stripPrefix [] s = Some s"
| "stripPrefix (p # ps) [] = None"
| "stripPrefix (p # ps) (c # cs) = (if p = c then stripPrefix ps cs else None)"

definition matchAt :: "string \<Rightarrow> string option" where
  "matchAt s =
     (case stripPrefix ''/s/'' s of
        None \<Rightarrow> None
      | Some rest \<Rightarrow> if rest \<noteq> [] \<and> CHR ''/'' \<notin> set rest then Some rest else None)"

fun shortLinkMatch :: "string \<Rightarrow> string option" where
  "shortLinkMatch [] = None"
| "shortLinkMatch (c # cs) =
     (case matchAt (c # cs) of Some g \<Rightarrow> Some g | None \<Rightarrow> shortLinkMatch cs)"

text \<open>
  A request, as far as the handler reads it: \<open>request.nextUrl.pathname\<close> and
  \<open>request.url\<close>. The response is \<open>NextResponse.next()\<close> or
  \<^verbatim>\<open>NextResponse.rewrite(new URL(path, request.url))\<close>, kept as the path and the base
  it is resolved against. \<open>isBotRequest\<close> comes from \<^verbatim>\<open>./lib/utils\<close>, outside the
  sources, and is a parameter. \<^verbatim>\<open>match?.[1]\<close> is truthy when there is a match and
  its group is not empty.
\<close>

record request =
  pathname :: string
  url :: string

datatype response = Rewrite string string | Next

definition handleShortLinkRequest :: "(request \<Rightarrow> bool) \<Rightarrow> request \<Rightarrow> response" where
  "handleShortLinkRequest isBotRequest req =
     (case shortLinkMatch (pathname req) of
        None \<Rightarrow> Next
      | Some shortLinkID \<Rightarrow>
          if shortLinkID \<noteq> [] \<and> isBotRequest req
          then Rewrite (''/s/'' @ shortLinkID @ ''/preview'') (url req)
          else Next)"

section \<open>Properties of the validation gate\<close>

lemma isValidConfig_iff:
  "isValidConfig errors \<longleftrightarrow>
     yamlError errors = None \<and> (ajvErrors errors = None \<or> ajvErrors errors = Some [])"
  by (auto simp: isValidConfig_def ajvErrorCount_def split: option.splits)

lemma isValidConfig_emptyReport: "isValidConfig emptyReport"
  by (simp add: isValidConfig_def ajvErrorCount_def emptyReport_def)

text \<open>
  The two operators collapse to one decision: the text itself when the report is valid
  and the text is not empty, the placeholder otherwise.
\<close>

lemma flowValue_cases:
  "flowValue errors cfg =
     (if isValidConfig errors \<and> cfg \<noteq> [] then JStr cfg else JStr ''{}'')"
  by (simp add: flowValue_def jsOr_def jsAnd_def)

text \<open>
  Claim C1. For every configuration text whose validation fails (\<open>isValidConfig\<close> is
  false: the report has a \<open>yamlError\<close> or a non-empty \<open>ajvErrors\<close> list, see
  \<open>isValidConfig_iff\<close>), the value passed to the diagram is exactly the placeholder
  string \<open>"{}"\<close>.
\<close>

theorem flow_placeholder_when_invalid:
  "\<not> isValidConfig errors \<Longrightarrow> flowValue errors cfg = JStr ''{}''"
  by (simp add: flowValue_cases)

text \<open>A report with a parse error, and one with a schema error.\<close>

theorem flow_placeholder_when_invalid_witness:
  "\<not> isValidConfig \<lparr>yamlError = Some ''bad indentation'', ajvErrors = Some ([] :: string list)\<rparr>
   \<and> \<not> isValidConfig \<lparr>yamlError = (None :: string option), ajvErrors = Some [''must be object'']\<rparr>
   \<and> flowValue \<lparr>yamlError = Some ''bad indentation'', ajvErrors = Some ([] :: string list)\<rparr>
         ''receivers: ['' = JStr ''{}''
   \<and> flowValue \<lparr>yamlError = (None :: string option), ajvErrors = Some [''must be object'']\<rparr>
         ''receivers: 1'' = JStr ''{}''"
proof -
  let ?a = "\<lparr>yamlError = Some ''bad indentation'', ajvErrors = Some ([] :: string list)\<rparr>"
  let ?b = "\<lparr>yamlError = (None :: string option), ajvErrors = Some [''must be object'']\<rparr>"
  have a: "\<not> isValidConfig ?a"
    by (simp add: isValidConfig_def)
  have b: "\<not> isValidConfig ?b"
    by (simp add: isValidConfig_def ajvErrorCount_def)
  show ?thesis
    using a b flow_placeholder_when_invalid [OF a, of "''receivers: [''"]
      flow_placeholder_when_invalid [OF b, of "''receivers: 1''"]
    by simp
qed

text \<open>
  The claim that every text that passes validation reaches the diagram unmodified fails
  at the empty text: the empty report is valid, and the diagram receives \<open>"{}"\<close>, not
  the empty text.
\<close>

theorem flow_empty_text_counterexample:
  "isValidConfig (emptyReport :: (unit, unit) IError)
   \<and> flowValue (emptyReport :: (unit, unit) IError) [] = JStr ''{}''
   \<and> flowValue (emptyReport :: (unit, unit) IError) [] \<noteq> JStr []"
  by (simp add: flowValue_cases isValidConfig_emptyReport)

text \<open>
  Claim C2, amended. For every non-empty configuration text whose validation passes,
  the value passed to the diagram is exactly that text, unmodified.
\<close>

theorem flow_text_when_valid:
  "isValidConfig errors \<Longrightarrow> cfg \<noteq> [] \<Longrightarrow> flowValue errors cfg = JStr cfg"
  by (simp add: flowValue_cases)

theorem flow_text_when_valid_witness:
  "isValidConfig \<lparr>yamlError = (None :: string option), ajvErrors = Some ([] :: string list)\<rparr>
   \<and> ''receivers: {}'' \<noteq> []
   \<and> flowValue \<lparr>yamlError = (None :: string option), ajvErrors = Some ([] :: string list)\<rparr>
         ''receivers: {}'' = JStr ''receivers: {}''"
proof -
  let ?a = "\<lparr>yamlError = (None :: string option), ajvErrors = Some ([] :: string list)\<rparr>"
  have a: "isValidConfig ?a"
    by (simp add: isValidConfig_def ajvErrorCount_def)
  have n: "''receivers: {}'' \<noteq> []"
    by simp
  show ?thesis
    using a n flow_text_when_valid [OF a n] by simp
qed



text \<open>
  Claim C10. When the current configuration text is the empty string the diagram
  receives the placeholder \<open>"{}"\<close>, whatever the validation report, a valid one
  included; and when \<open>selectConfigType\<close> yields no configuration, the change handler
  sets the current configuration to the empty string, so the diagram then shows the
  placeholder.
\<close>

theorem empty_text_placeholder:
  "flowValue errors [] = JStr ''{}''
   \<and> (selectConfigType (nullish v []) = None \<longrightarrow>
        handleEditorChange selectConfigType v = []
        \<and> flowValue errors (handleEditorChange selectConfigType v) = JStr ''{}'')"
  by (simp add: flowValue_cases handleEditorChange_def nullish_def)

text \<open>A selection that always fails, under the valid empty report.\<close>

theorem empty_text_placeholder_witness:
  "isValidConfig (emptyReport :: (unit, unit) IError)
   \<and> flowValue (emptyReport :: (unit, unit) IError) [] = JStr ''{}''
   \<and> Map.empty (nullish (Some ''receivers: 1'') []) = (None :: string option)
   \<and> handleEditorChange Map.empty (Some ''receivers: 1'') = []
   \<and> flowValue (emptyReport :: (unit, unit) IError)
        (handleEditorChange Map.empty (Some ''receivers: 1'')) = JStr ''{}''"
  using empty_text_placeholder [of "emptyReport :: (unit, unit) IError" Map.empty
      "Some ''receivers: 1''"]
  by (simp add: isValidConfig_emptyReport)

section \<open>Properties of the decimal text of a width\<close>

lemma digitValue_digitChar: "d < 10 \<Longrightarrow> digitValue (digitChar d) = Some d"
proof -
  assume "d < 10"
  then have "d \<in> {0, 1, 2, 3, 4, 5, 6, 7, 8, 9}" by auto
  then show ?thesis
    by (auto simp: digitValue_def digitChar_def)
qed

lemma digitChar_not_sign: "d < 10 \<Longrightarrow> digitChar d \<noteq> CHR ''-'' \<and> digitChar d \<noteq> CHR ''+''"
proof -
  assume "d < 10"
  then have "d \<in> {0, 1, 2, 3, 4, 5, 6, 7, 8, 9}" by auto
  then show ?thesis
    by (auto simp: digitChar_def)
qed

text \<open>Reading one more digit at the end multiplies what was read by ten and adds it.\<close>

lemma parseDigits_snoc:
  "parseDigits acc (xs @ [c]) =
     (case parseDigits acc xs of
        None \<Rightarrow> None
      | Some m \<Rightarrow> (case digitValue c of None \<Rightarrow> None | Some d \<Rightarrow> Some (10 * m + d)))"
  by (induction xs arbitrary: acc) (auto split: option.splits)

lemma natToString_nonempty: "natToString n \<noteq> []"
  by (subst natToString.simps) simp

lemma parseDigits_natToString: "parseDigits 0 (natToString n) = Some n"
proof (induction n rule: natToString.induct)
  case (1 n)
  show ?case
  proof (cases "n < 10")
    case True
    then show ?thesis
      by (subst natToString.simps) (simp add: digitValue_digitChar)
  next
    case False
    then have ih: "parseDigits 0 (natToString (n div 10)) = Some (n div 10)"
      using 1 by simp
    have "n mod 10 < 10" by simp
    then have dv: "digitValue (digitChar (n mod 10)) = Some (n mod 10)"
      by (rule digitValue_digitChar)
    show ?thesis
      using False by (subst natToString.simps) (simp add: parseDigits_snoc ih dv)
  qed
qed

lemma hd_natToString: "hd (natToString n) \<noteq> CHR ''-'' \<and> hd (natToString n) \<noteq> CHR ''+''"
proof (induction n rule: natToString.induct)
  case (1 n)
  show ?case
  proof (cases "n < 10")
    case True
    then show ?thesis
      by (subst (1 2) natToString.simps) (simp add: digitChar_not_sign)
  next
    case False
    then show ?thesis
      using 1 by (subst (1 2) natToString.simps) (simp add: natToString_nonempty)
  qed
qed

lemma parseUnsigned_natToString: "parseUnsigned (natToString n) = Some n"
  by (simp add: parseUnsigned_def natToString_nonempty parseDigits_natToString)

lemma parseSigned_jsString: "parseSigned (jsString n) = Some n"
proof (cases "n < 0")
  case True
  then show ?thesis
    by (simp add: parseSigned_def jsString_def parseUnsigned_natToString)
next
  case False
  obtain c cs where cs: "natToString (nat n) = c # cs"
    using natToString_nonempty [of "nat n"] by (cases "natToString (nat n)") auto
  have "c \<noteq> CHR ''-'' \<and> c \<noteq> CHR ''+''"
    using hd_natToString [of "nat n"] cs by simp
  moreover have "parseUnsigned (c # cs) = Some (nat n)"
    using parseUnsigned_natToString [of "nat n"] cs by simp
  ultimately show ?thesis
    using False cs by (simp add: parseSigned_def jsString_def)
qed

text \<open>\<open>Number(String(n))\<close> is \<open>n\<close> for every safe integer.\<close>

lemma jsNumber_jsString: "isSafeInteger n \<Longrightarrow> jsNumber (jsString n) = Some n"
  by (simp add: jsNumber_def parseSigned_jsString)

lemma jsString_440: "jsString 440 = ''440''"
  by (simp add: jsString_def natToString.simps digitChar_def)

lemma jsNumber_examples:
  "jsNumber ''440'' = Some 440" "jsNumber ''-12'' = Some (- 12)" "jsNumber [] = Some 0"
  "jsNumber ''4a'' = None" "jsNumber ''9007199254740992'' = None"
  by (simp_all add: jsNumber_def parseSigned_def parseUnsigned_def digitValue_def
      isSafeInteger_def)

section \<open>Properties of the view mode controller\<close>

text \<open>The decimal text of a number has no leading zero, except the text of zero.\<close>

lemma digitChar_zero_iff: "d < 10 \<Longrightarrow> digitChar d = CHR ''0'' \<longleftrightarrow> d = 0"
proof -
  assume "d < 10"
  then have "d \<in> {0, 1, 2, 3, 4, 5, 6, 7, 8, 9}" by auto
  then show ?thesis
    by (auto simp: digitChar_def)
qed

lemma natToString_zero: "natToString 0 = ''0''"
  by (subst natToString.simps) (simp add: digitChar_def)

lemma natToString_leading_zero: "hd (natToString n) = CHR ''0'' \<Longrightarrow> n = 0"
proof (induction n rule: natToString.induct)
  case (1 n)
  show ?case
  proof (cases "n < 10")
    case True
    with "1.prems" show ?thesis
      by (subst (asm) natToString.simps) (simp add: digitChar_zero_iff)
  next
    case False
    with "1.prems" have "hd (natToString (n div 10)) = CHR ''0''"
      by (subst (asm) natToString.simps) (simp add: natToString_nonempty)
    with False "1.IH" have "n div 10 = 0" by simp
    with False show ?thesis by simp
  qed
qed

lemma jsString_form:
  "jsString w = (if w < 0 then ''-'' else []) @ natToString (nat \<bar>w\<bar>)"
  by (simp add: jsString_def)

text \<open>
  Claim C4. \<open>calculateViewWidth\<close> gives the full width \<open>"100%"\<close> in the code-only
  mode and the zero width \<open>"0px"\<close> in the diagram-only mode (\<open>"pipeline"\<close>), whatever
  the stored width; in the split mode (\<open>"both"\<close>) it gives the stored width as a pixel
  string: a minus sign when the width is negative, then the decimal digits of its
  magnitude, without a leading zero unless the width is zero, then \<open>px\<close>. The split
  case is stated for the safe integers, where the integer model of widths is the
  code's.
\<close>

theorem calculateViewWidth_modes:
  "calculateViewWidth ''code'' w = ''100%''
   \<and> calculateViewWidth ''pipeline'' w = ''0px''
   \<and> (isSafeInteger w \<longrightarrow>
        (\<exists>ds. calculateViewWidth ''both'' w = (if w < 0 then ''-'' else []) @ ds @ ''px''
           \<and> ds \<noteq> [] \<and> parseDigits 0 ds = Some (nat \<bar>w\<bar>)
           \<and> (hd ds = CHR ''0'' \<longrightarrow> w = 0 \<and> ds = ''0'')))"
proof -
  let ?ds = "natToString (nat \<bar>w\<bar>)"
  have split: "calculateViewWidth ''both'' w = (if w < 0 then ''-'' else []) @ ?ds @ ''px''"
    by (simp add: calculateViewWidth_def jsString_form)
  have lead: "hd ?ds = CHR ''0'' \<longrightarrow> w = 0 \<and> ?ds = ''0''"
  proof
    assume "hd ?ds = CHR ''0''"
    then have "nat \<bar>w\<bar> = 0" by (rule natToString_leading_zero)
    then have "w = 0" by simp
    then show "w = 0 \<and> ?ds = ''0''" by (simp add: natToString_zero)
  qed
  have "\<exists>ds. calculateViewWidth ''both'' w = (if w < 0 then ''-'' else []) @ ds @ ''px''
           \<and> ds \<noteq> [] \<and> parseDigits 0 ds = Some (nat \<bar>w\<bar>)
           \<and> (hd ds = CHR ''0'' \<longrightarrow> w = 0 \<and> ds = ''0'')"
    using split lead natToString_nonempty [of "nat \<bar>w\<bar>"]
      parseDigits_natToString [of "nat \<bar>w\<bar>"]
    by blast
  then show ?thesis
    by (simp add: calculateViewWidth_def)
qed

text \<open>The default width of 440 pixels in the three modes.\<close>

theorem calculateViewWidth_modes_witness:
  "isSafeInteger 440
   \<and> calculateViewWidth ''code'' 440 = ''100%''
   \<and> calculateViewWidth ''pipeline'' 440 = ''0px''
   \<and> calculateViewWidth ''both'' 440 = ''440px''
   \<and> parseDigits 0 ''440'' = Some (nat \<bar>440\<bar>)
   \<and> hd ''440'' \<noteq> CHR ''0''"
proof -
  have safe: "isSafeInteger 440"
    by (simp add: isSafeInteger_def)
  show ?thesis
    using safe calculateViewWidth_modes [of 440]
    by (simp add: calculateViewWidth_def jsString_440 digitValue_def)
qed

text \<open>
  Every other mode string takes the split branch as well, and the digits written there
  read back as the stored width.
\<close>

lemma calculateViewWidth_default:
  "viewMode \<noteq> ''code'' \<Longrightarrow> viewMode \<noteq> ''pipeline'' \<Longrightarrow>
     calculateViewWidth viewMode w = jsString w @ ''px''"
  by (simp add: calculateViewWidth_def)

lemma calculateViewWidth_split_denotes:
  "isSafeInteger w \<Longrightarrow>
     \<exists>digits. calculateViewWidth ''both'' w = digits @ ''px'' \<and> jsNumber digits = Some w"
  by (simp add: calculateViewWidth_def jsNumber_jsString)

lemma calculateViewWidth_split_440: "calculateViewWidth ''both'' 440 = ''440px''"
  by (simp add: calculateViewWidth_def jsString_440)

section \<open>Properties of the width persistence\<close>

lemma initialWidth_default: "localStorage b ''width'' = None \<Longrightarrow> initialWidth b = Some 440"
  by (simp add: initialWidth_def)

text \<open>
  Claim C5. For every (safe integer) width \<open>w\<close>: after the resize handler has run
  with \<open>w\<close>, the local-storage key \<open>"width"\<close> holds the text of \<open>w\<close>, and the
  initial width state of a fresh load over that storage is exactly \<open>w\<close>. The handler
  also sets the running component's width to \<open>w\<close>.
\<close>

theorem width_persistence_roundtrip:
  assumes "isSafeInteger w"
  shows "localStorage (performAll (fst (onWidthChange w s)) b) ''width'' = Some (jsString w)
    \<and> initialWidth (performAll (fst (onWidthChange w s)) b) = Some w
    \<and> map_option width (initialEditor (performAll (fst (onWidthChange w s)) b) cfg link) = Some w
    \<and> width (snd (onWidthChange w s)) = w"
  using assms
  by (simp add: onWidthChange_def initialWidth_def initialEditor_def jsNumber_jsString)

text \<open>A resize to 512 pixels over an empty storage, from the default width.\<close>

theorem width_persistence_roundtrip_witness:
  "isSafeInteger 512
   \<and> localStorage
        (performAll
          (fst (onWidthChange 512
            \<lparr>config = ''a'', getLink = append ''/#config='', linkVersion = 0,
              currentConfig = ''a'', width = 440\<rparr>))
          \<lparr>localStorage = Map.empty, historyEntries = [''/''], historyIndex = 0, tracked = []\<rparr>)
        ''width'' = Some ''512''
   \<and> initialWidth
        (performAll
          (fst (onWidthChange 512
            \<lparr>config = ''a'', getLink = append ''/#config='', linkVersion = 0,
              currentConfig = ''a'', width = 440\<rparr>))
          \<lparr>localStorage = Map.empty, historyEntries = [''/''], historyIndex = 0, tracked = []\<rparr>)
        = Some 512"
proof -
  have safe: "isSafeInteger 512"
    by (simp add: isSafeInteger_def)
  have str: "jsString 512 = ''512''"
    by (simp add: jsString_def natToString.simps digitChar_def)
  show ?thesis
    using safe
      width_persistence_roundtrip [OF safe,
        of "\<lparr>config = ''a'', getLink = append ''/#config='', linkVersion = 0,
              currentConfig = ''a'', width = 440\<rparr>"
           "\<lparr>localStorage = Map.empty, historyEntries = [''/''], historyIndex = 0, tracked = []\<rparr>"]
    by (simp add: str)
qed

section \<open>Properties of the effects\<close>

lemma changeEffect_cases:
  "changeEffect e s =
     (if hasWindow e \<and> currentConfig s \<noteq> config s
      then [HistoryPushState (getLink s (currentConfig s))] else [])"
  by (simp add: changeEffect_def onChangeConfig_def)

text \<open>
  The claim that the URL is changed by history replacement, with no new entry in the
  navigation stack, fails on a change from \<open>a\<close> to \<open>b\<close>: the one call issued is a
  \<open>pushState\<close>, and a history of one entry has two afterwards. The link builder here
  stands for the one \<open>useUrlState\<close> returns.
\<close>

theorem history_replace_counterexample:
  "changeEffect \<lparr>hasWindow = True, fallback = ''d''\<rparr>
      \<lparr>config = ''a'', getLink = append ''/#config='', linkVersion = 0,
        currentConfig = ''b'', width = 440\<rparr> = [HistoryPushState ''/#config=b'']
   \<and> changeEffect \<lparr>hasWindow = True, fallback = ''d''\<rparr>
      \<lparr>config = ''a'', getLink = append ''/#config='', linkVersion = 0,
        currentConfig = ''b'', width = 440\<rparr> \<noteq> [HistoryReplaceState ''/#config=b'']
   \<and> historyEntries
        (performAll
          (changeEffect \<lparr>hasWindow = True, fallback = ''d''\<rparr>
            \<lparr>config = ''a'', getLink = append ''/#config='', linkVersion = 0,
              currentConfig = ''b'', width = 440\<rparr>)
          \<lparr>localStorage = Map.empty, historyEntries = [''/#config=a''], historyIndex = 0,
            tracked = []\<rparr>)
        = [''/#config=a'', ''/#config=b'']"
  by (simp add: changeEffect_cases)

text \<open>
  Claim C3, amended. When the internally held configuration text differs from the
  URL-encoded text, the store pushes the new URL with \<open>history.pushState\<close>: the
  entry for the new text is added after the current one and becomes current, so each
  change creates a navigation-stack entry.
\<close>

theorem change_pushes_history_entry:
  assumes "hasWindow e" and "currentConfig s \<noteq> config s"
    and "historyIndex b < length (historyEntries b)"
  shows "changeEffect e s = [HistoryPushState (getLink s (currentConfig s))]
    \<and> historyEntries (performAll (changeEffect e s) b)
        = take (Suc (historyIndex b)) (historyEntries b) @ [getLink s (currentConfig s)]
    \<and> length (historyEntries (performAll (changeEffect e s) b)) = historyIndex b + 2
    \<and> historyIndex (performAll (changeEffect e s) b) = Suc (historyIndex b)"
  using assms by (simp add: changeEffect_cases)

theorem change_pushes_history_entry_witness:
  "hasWindow \<lparr>hasWindow = True, fallback = ''d''\<rparr>
   \<and> currentConfig \<lparr>config = ''a'', getLink = append ''/#config='', linkVersion = 0,
        currentConfig = ''b'', width = 440\<rparr>
      \<noteq> config \<lparr>config = ''a'', getLink = append ''/#config='', linkVersion = 0,
        currentConfig = ''b'', width = 440\<rparr>
   \<and> historyIndex \<lparr>localStorage = Map.empty, historyEntries = [''/#config=a''],
        historyIndex = 0, tracked = []\<rparr>
      < length (historyEntries \<lparr>localStorage = Map.empty, historyEntries = [''/#config=a''],
        historyIndex = 0, tracked = []\<rparr>)
   \<and> length (historyEntries
        (performAll
          (changeEffect \<lparr>hasWindow = True, fallback = ''d''\<rparr>
            \<lparr>config = ''a'', getLink = append ''/#config='', linkVersion = 0,
              currentConfig = ''b'', width = 440\<rparr>)
          \<lparr>localStorage = Map.empty, historyEntries = [''/#config=a''], historyIndex = 0,
            tracked = []\<rparr>)) = 2"
proof -
  let ?e = "\<lparr>hasWindow = True, fallback = ''d''\<rparr>"
  let ?s = "\<lparr>config = ''a'', getLink = append ''/#config='', linkVersion = 0,
              currentConfig = ''b'', width = 440\<rparr>"
  let ?b = "\<lparr>localStorage = Map.empty, historyEntries = [''/#config=a''], historyIndex = 0,
              tracked = []\<rparr>"
  have w: "hasWindow ?e" by simp
  have d: "currentConfig ?s \<noteq> config ?s" by simp
  have i: "historyIndex ?b < length (historyEntries ?b)" by simp
  show ?thesis
    using w d i change_pushes_history_entry [OF w d i] by simp
qed

text \<open>
  The claim that a divergence of the two texts gives exactly one history update, with
  no duplicate from repeated identical values, fails over these three renders: the
  component mounts with both texts \<open>a\<close>, the user types \<open>b\<close>, and a third render
  keeps both texts and only brings a new \<open>getLink\<close> function object. The effect runs
  again after the third render, since \<open>onChangeConfig\<close> is in its dependency list,
  and the same URL is pushed twice.
\<close>

theorem duplicate_update_counterexample:
  "filter isHistoryUpdate
     (lifecycleEffects \<lparr>hasWindow = True, fallback = ''d''\<rparr>
        \<lparr>config = ''a'', getLink = append ''/#config='', linkVersion = 0,
          currentConfig = ''a'', width = 440\<rparr>
        [\<lparr>config = ''a'', getLink = append ''/#config='', linkVersion = 0,
           currentConfig = ''b'', width = 440\<rparr>,
         \<lparr>config = ''a'', getLink = append ''/#config='', linkVersion = 1,
           currentConfig = ''b'', width = 440\<rparr>])
     = [HistoryPushState ''/#config=b'', HistoryPushState ''/#config=b'']
   \<and> historyEntries
        (performAll
          (lifecycleEffects \<lparr>hasWindow = True, fallback = ''d''\<rparr>
            \<lparr>config = ''a'', getLink = append ''/#config='', linkVersion = 0,
              currentConfig = ''a'', width = 440\<rparr>
            [\<lparr>config = ''a'', getLink = append ''/#config='', linkVersion = 0,
               currentConfig = ''b'', width = 440\<rparr>,
             \<lparr>config = ''a'', getLink = append ''/#config='', linkVersion = 1,
               currentConfig = ''b'', width = 440\<rparr>])
          \<lparr>localStorage = Map.empty, historyEntries = [''/#config=a''], historyIndex = 0,
            tracked = []\<rparr>)
     = [''/#config=a'', ''/#config=b'', ''/#config=b'']"
  by (simp add: lifecycleEffects_def mountEffects_def updateEffects_def trackEffect_def
      restoreEffect_def changeEffect_def onChangeConfig_def)

text \<open>
  Claim C6, amended. In a browser, where \<open>window\<close> exists: after a render in which
  the current configuration text, the URL-decoded text or the \<open>onChangeConfig\<close>
  callback (the identity of \<open>getLink\<close>) changed, the change-detection effect issues
  exactly one history update, for the current text, when the two texts differ; it
  issues none when they are equal; and a render that changes none of the three issues
  nothing at all. After the first render the effect runs once, under the same test.
  Each run of the effect body issues that one update or none.
\<close>

theorem change_effect_per_render:
  assumes "hasWindow e"
  shows "(currentConfig cur \<noteq> config cur \<and>
            (currentConfig cur \<noteq> currentConfig prev \<or> config cur \<noteq> config prev
              \<or> linkVersion cur \<noteq> linkVersion prev) \<longrightarrow>
          filter isHistoryUpdate (updateEffects e prev cur)
            = [HistoryPushState (getLink cur (currentConfig cur))])
    \<and> (currentConfig cur = config cur \<longrightarrow>
          filter isHistoryUpdate (updateEffects e prev cur) = [])
    \<and> (currentConfig cur = currentConfig prev \<and> config cur = config prev
          \<and> linkVersion cur = linkVersion prev \<longrightarrow> updateEffects e prev cur = [])
    \<and> filter isHistoryUpdate (mountEffects e cur)
          = (if currentConfig cur \<noteq> config cur
             then [HistoryPushState (getLink cur (currentConfig cur))] else [])
    \<and> changeEffect e cur
          = (if currentConfig cur \<noteq> config cur
             then [HistoryPushState (getLink cur (currentConfig cur))] else [])"
  using assms
  by (auto simp: updateEffects_def mountEffects_def trackEffect_def restoreEffect_def
      changeEffect_cases)

text \<open>
  The user types \<open>b\<close> over \<open>a\<close>: one update. The URL then follows: none. A render
  with nothing changed: no effect.
\<close>

theorem change_effect_per_render_witness:
  "hasWindow \<lparr>hasWindow = True, fallback = ''d''\<rparr>
   \<and> filter isHistoryUpdate
        (updateEffects \<lparr>hasWindow = True, fallback = ''d''\<rparr>
          \<lparr>config = ''a'', getLink = append ''/#config='', linkVersion = 0,
            currentConfig = ''a'', width = 440\<rparr>
          \<lparr>config = ''a'', getLink = append ''/#config='', linkVersion = 0,
            currentConfig = ''b'', width = 440\<rparr>)
        = [HistoryPushState ''/#config=b'']
   \<and> filter isHistoryUpdate
        (updateEffects \<lparr>hasWindow = True, fallback = ''d''\<rparr>
          \<lparr>config = ''a'', getLink = append ''/#config='', linkVersion = 0,
            currentConfig = ''b'', width = 440\<rparr>
          \<lparr>config = ''b'', getLink = append ''/#config='', linkVersion = 0,
            currentConfig = ''b'', width = 440\<rparr>)
        = []
   \<and> updateEffects \<lparr>hasWindow = True, fallback = ''d''\<rparr>
        \<lparr>config = ''a'', getLink = append ''/#config='', linkVersion = 0,
          currentConfig = ''b'', width = 440\<rparr>
        \<lparr>config = ''a'', getLink = append ''/#config='', linkVersion = 0,
          currentConfig = ''b'', width = 440\<rparr> = []"
proof -
  let ?e = "\<lparr>hasWindow = True, fallback = ''d''\<rparr>"
  let ?m = "\<lparr>config = ''a'', getLink = append ''/#config='', linkVersion = 0,
              currentConfig = ''a'', width = 440\<rparr>"
  let ?t = "\<lparr>config = ''a'', getLink = append ''/#config='', linkVersion = 0,
              currentConfig = ''b'', width = 440\<rparr>"
  let ?u = "\<lparr>config = ''b'', getLink = append ''/#config='', linkVersion = 0,
              currentConfig = ''b'', width = 440\<rparr>"
  have w: "hasWindow ?e" by simp
  show ?thesis
    using w change_effect_per_render [OF w, where cur = ?t and prev = ?m]
      change_effect_per_render [OF w, where cur = ?u and prev = ?t]
      change_effect_per_render [OF w, where cur = ?t and prev = ?t]
    by simp
qed

text \<open>No effect of a later render tracks anything.\<close>

lemma rerenderEffects_no_track: "Track name \<notin> set (rerenderEffects e prev rest)"
  by (induction rest arbitrary: prev)
    (auto simp: updateEffects_def restoreEffect_def changeEffect_cases)

lemma filter_absent: "x \<notin> set xs \<Longrightarrow> filter (\<lambda>y. y = x) xs = []"
  by (induction xs) auto

text \<open>
  Claim C7. Over the first render and any later renders, the analytics event
  \<open>"Opened with non-default config"\<close> is issued exactly once when the loaded
  configuration differs from \<open>editorBinding.fallback\<close>, and not at all when it equals
  it; the one event is issued by the effects of the first render.
\<close>

theorem track_once_iff_non_default:
  "length (filter (\<lambda>x. x = Track ''Opened with non-default config'')
            (lifecycleEffects e first rest))
     = (if config first \<noteq> fallback e then 1 else 0)
   \<and> length (filter (\<lambda>x. x = Track ''Opened with non-default config'') (mountEffects e first))
     = (if config first \<noteq> fallback e then 1 else 0)"
  by (simp add: lifecycleEffects_def mountEffects_def trackEffect_def restoreEffect_def
      changeEffect_cases filter_absent [OF rerenderEffects_no_track])

section \<open>Properties of the short-link middleware\<close>

lemma stripPrefix_Some_iff: "stripPrefix p s = Some r \<longleftrightarrow> s = p @ r"
proof (induction p s rule: stripPrefix.induct)
  case (1 s)
  show ?case by auto
next
  case (2 p ps)
  show ?case by simp
next
  case (3 p ps c cs)
  then show ?case by auto
qed

lemma matchAt_Some_iff:
  "matchAt s = Some g \<longleftrightarrow> s = ''/s/'' @ g \<and> g \<noteq> [] \<and> CHR ''/'' \<notin> set g"
proof (cases "stripPrefix ''/s/'' s")
  case None
  then have "s \<noteq> ''/s/'' @ g"
    using stripPrefix_Some_iff [of "''/s/''" s g] by simp
  with None show ?thesis
    by (simp add: matchAt_def)
next
  case (Some rest)
  then have "s = ''/s/'' @ rest"
    using stripPrefix_Some_iff [of "''/s/''" s rest] by simp
  with Some show ?thesis
    by (auto simp: matchAt_def)
qed

text \<open>
  A match cannot start before another one: the group of the earlier one would contain
  the \<open>/\<close> of the later one.
\<close>

lemma no_later_match:
  assumes "CHR ''/'' \<notin> set g'"
  shows "''/s/'' @ g' \<noteq> (c # pre) @ ''/s/'' @ g"
proof (cases pre)
  case Nil
  then show ?thesis by simp
next
  case (Cons d pre2)
  show ?thesis
  proof (cases pre2)
    case Nil
    with Cons assms show ?thesis by auto
  next
    case (Cons x pre3)
    with \<open>pre = d # pre2\<close> assms show ?thesis by auto
  qed
qed

lemma shortLinkMatch_sound:
  "shortLinkMatch p = Some g \<Longrightarrow>
     (\<exists>pre. p = pre @ ''/s/'' @ g) \<and> g \<noteq> [] \<and> CHR ''/'' \<notin> set g"
proof (induction p)
  case Nil
  then show ?case by simp
next
  case (Cons c cs)
  show ?case
  proof (cases "matchAt (c # cs)")
    case None
    with Cons.prems have "shortLinkMatch cs = Some g" by simp
    then obtain pre where "cs = pre @ ''/s/'' @ g" and ok: "g \<noteq> []" "CHR ''/'' \<notin> set g"
      using Cons.IH by blast
    then have "c # cs = (c # pre) @ ''/s/'' @ g" by simp
    with ok show ?thesis by blast
  next
    case (Some h)
    with Cons.prems have "h = g" by simp
    with Some have "c # cs = ''/s/'' @ g \<and> g \<noteq> [] \<and> CHR ''/'' \<notin> set g"
      using matchAt_Some_iff [of "c # cs" g] by simp
    then have "c # cs = [] @ ''/s/'' @ g" and "g \<noteq> []" and "CHR ''/'' \<notin> set g"
      by simp_all
    then show ?thesis by blast
  qed
qed

lemma shortLinkMatch_complete:
  assumes "g \<noteq> []" and "CHR ''/'' \<notin> set g"
  shows "shortLinkMatch (pre @ ''/s/'' @ g) = Some g"
proof (induction pre)
  case Nil
  have "matchAt (''/s/'' @ g) = Some g"
    using assms matchAt_Some_iff [of "''/s/'' @ g" g] by simp
  then show ?case by simp
next
  case (Cons c pre)
  show ?case
  proof (cases "matchAt ((c # pre) @ ''/s/'' @ g)")
    case None
    with Cons.IH show ?thesis by simp
  next
    case (Some h)
    then have "(c # pre) @ ''/s/'' @ g = ''/s/'' @ h" and "CHR ''/'' \<notin> set h"
      using matchAt_Some_iff [of "(c # pre) @ ''/s/'' @ g" h] by simp_all
    then show ?thesis
      using no_later_match [of h c pre g] by simp
  qed
qed

text \<open>
  What the expression matches: a path that ends in \<open>/s/\<close> and a non-empty last
  segment, whatever stands before.
\<close>

lemma shortLinkMatch_Some_iff:
  "shortLinkMatch p = Some g \<longleftrightarrow>
     (\<exists>pre. p = pre @ ''/s/'' @ g) \<and> g \<noteq> [] \<and> CHR ''/'' \<notin> set g"
  using shortLinkMatch_sound [of p g] shortLinkMatch_complete [of g]
  by blast

text \<open>The parts of the scenario that hold on the code.\<close>

lemma handle_exact_path:
  assumes "g \<noteq> []" and "CHR ''/'' \<notin> set g" and "pathname req = ''/s/'' @ g"
  shows "handleShortLinkRequest isBot req =
     (if isBot req then Rewrite (''/s/'' @ g @ ''/preview'') (url req) else Next)"
  using assms shortLinkMatch_complete [OF assms(1,2), of "[]"]
  by (simp add: handleShortLinkRequest_def)

lemma handle_non_bot: "\<not> isBot req \<Longrightarrow> handleShortLinkRequest isBot req = Next"
  by (simp add: handleShortLinkRequest_def split: option.splits)

lemma handle_bot_abc123:
  "handleShortLinkRequest (\<lambda>r. True) \<lparr>pathname = ''/s/abc123'', url = u\<rparr>
     = Rewrite ''/s/abc123/preview'' u"
  by (simp add: handleShortLinkRequest_def matchAt_def)

lemma handle_extra_segment:
  "handleShortLinkRequest isBot \<lparr>pathname = ''/s/abc123/extra'', url = u\<rparr> = Next"
  by (simp add: handleShortLinkRequest_def matchAt_def)

text \<open>The handler rewrites exactly the bot requests whose path ends in a short link.\<close>

lemma handleShortLinkRequest_Rewrite_iff:
  "handleShortLinkRequest isBot req = Rewrite target base \<longleftrightarrow>
     isBot req \<and> base = url req \<and>
     (\<exists>pre g. pathname req = pre @ ''/s/'' @ g \<and> g \<noteq> [] \<and> CHR ''/'' \<notin> set g
        \<and> target = ''/s/'' @ g @ ''/preview'')"
proof (cases "shortLinkMatch (pathname req)")
  case None
  have "\<not> (\<exists>pre g. pathname req = pre @ ''/s/'' @ g \<and> g \<noteq> [] \<and> CHR ''/'' \<notin> set g)"
  proof
    assume "\<exists>pre g. pathname req = pre @ ''/s/'' @ g \<and> g \<noteq> [] \<and> CHR ''/'' \<notin> set g"
    then obtain pre g where "pathname req = pre @ ''/s/'' @ g" "g \<noteq> []" "CHR ''/'' \<notin> set g"
      by blast
    then have "shortLinkMatch (pathname req) = Some g"
      using shortLinkMatch_complete [of g pre] by simp
    with None show False by simp
  qed
  with None show ?thesis
    by (auto simp: handleShortLinkRequest_def)
next
  case (Some h)
  then obtain pre where p: "pathname req = pre @ ''/s/'' @ h"
    and ok: "h \<noteq> []" "CHR ''/'' \<notin> set h"
    using shortLinkMatch_sound by blast
  have uniq: "g = h"
    if "pathname req = pre' @ ''/s/'' @ g" "g \<noteq> []" "CHR ''/'' \<notin> set g" for pre' g
    using that Some shortLinkMatch_complete [of g pre'] by simp
  show ?thesis
  proof
    assume "handleShortLinkRequest isBot req = Rewrite target base"
    with Some ok have "isBot req" "base = url req" "target = ''/s/'' @ h @ ''/preview''"
      by (auto simp: handleShortLinkRequest_def split: if_splits)
    with p ok show "isBot req \<and> base = url req \<and>
     (\<exists>pre g. pathname req = pre @ ''/s/'' @ g \<and> g \<noteq> [] \<and> CHR ''/'' \<notin> set g
        \<and> target = ''/s/'' @ g @ ''/preview'')"
      by blast
  next
    assume r: "isBot req \<and> base = url req \<and>
     (\<exists>pre g. pathname req = pre @ ''/s/'' @ g \<and> g \<noteq> [] \<and> CHR ''/'' \<notin> set g
        \<and> target = ''/s/'' @ g @ ''/preview'')"
    then obtain pre' g where "pathname req = pre' @ ''/s/'' @ g" "g \<noteq> []" "CHR ''/'' \<notin> set g"
      and t: "target = ''/s/'' @ g @ ''/preview''"
      by blast
    then have "g = h" using uniq by blast
    with r t Some ok show "handleShortLinkRequest isBot req = Rewrite target base"
      by (simp add: handleShortLinkRequest_def)
  qed
qed

text \<open>
  Claim C8. A bot request to \<open>/s/<id>\<close> is rewritten to \<open>/s/<id>/preview\<close>, and every
  non-bot request and every request whose path has extra segments passes through. The
  code breaks the last part: the expression is not anchored at the start of the path,
  so a bot request to \<open>/s/s/abc\<close>, which has an extra segment and which the route
  matcher \<open>/s/(.*)\<close> lets in, is rewritten to the preview of the short link \<open>abc\<close>.
\<close>

theorem short_link_nested_path_rewritten:
  "handleShortLinkRequest (\<lambda>r. True)
     \<lparr>pathname = ''/s/s/abc'', url = ''https://otelbin.io/s/s/abc''\<rparr>
     = Rewrite ''/s/abc/preview'' ''https://otelbin.io/s/s/abc''"
  by (simp add: handleShortLinkRequest_def matchAt_def)

end
